theory Spec2Isabelle
  imports Main "HOL-Library.Word"
begin

unbundle bit_operations_syntax

section \<open>The GBK encoding handler of \<^verbatim>\<open>src/enc/yp_gbk.c\<close>\<close>

subsection \<open>Data model\<close>

text \<open>
  An \<^verbatim>\<open>unsigned char\<close> is an 8-bit word, the codepoint type
  \<^verbatim>\<open>yp_gbk_codepoint_t\<close> is \<^verbatim>\<open>uint16_t\<close>. The remaining length
  \<^verbatim>\<open>ptrdiff_t n\<close> is signed and is only ever compared with 1, so it is an
  \<open>int\<close>. A width (\<^verbatim>\<open>size_t\<close>) only takes the values 0, 1 and 2 and is never
  computed with, so it is a \<open>nat\<close>.
\<close>

type_synonym byte = "8 word"
type_synonym yp_gbk_codepoint_t = "16 word"
type_synonym ptrdiff_t = int
type_synonym size_t = nat

text \<open>
  The pointer \<^verbatim>\<open>c\<close> is modelled by the list of the bytes that may be read through
  it: \<^verbatim>\<open>uc[i]\<close> is a value for \<open>i\<close> below the length of that list and a fault
  (\<open>None\<close>) at or beyond it. The caller's window \<^verbatim>\<open>(c, n)\<close> is well formed
  when the list holds at least \<open>n\<close> bytes; a list of exactly \<open>n\<close> bytes makes every
  read at or beyond the remaining length a fault.
\<close>

definition byte_at :: "byte list \<Rightarrow> nat \<Rightarrow> byte option" where
  "byte_at uc i = (if i < length uc then Some (uc ! i) else None)"

text \<open>
  Conditions that read memory evaluate to \<open>Some\<close> truth value or to the fault
  \<open>None\<close>. The operators \<^verbatim>\<open>&&\<close> and \<^verbatim>\<open>||\<close> of C evaluate their right
  operand only when the left one does not decide the result.
\<close>

definition land :: "bool option \<Rightarrow> bool option \<Rightarrow> bool option" where
  "land p q = (case p of None \<Rightarrow> None | Some l \<Rightarrow> if l then q else Some False)"

definition lor :: "bool option \<Rightarrow> bool option \<Rightarrow> bool option" where
  "lor p q = (case p of None \<Rightarrow> None | Some l \<Rightarrow> if l then Some True else q)"

definition ge_at :: "byte list \<Rightarrow> nat \<Rightarrow> byte \<Rightarrow> bool option" where
  "ge_at uc i k = map_option (\<lambda>b. k \<le> b) (byte_at uc i)"

definition le_at :: "byte list \<Rightarrow> nat \<Rightarrow> byte \<Rightarrow> bool option" where
  "le_at uc i k = map_option (\<lambda>b. b \<le> k) (byte_at uc i)"

definition ne_at :: "byte list \<Rightarrow> nat \<Rightarrow> byte \<Rightarrow> bool option" where
  "ne_at uc i k = map_option (\<lambda>b. b \<noteq> k) (byte_at uc i)"

subsection \<open>The codepoint decoder\<close>

text \<open>The five disjuncts of the double-byte test, lines 19 to 23 of the source.\<close>

definition gbk_1 :: "byte list \<Rightarrow> bool option" where
  "gbk_1 uc = land (land (ge_at uc 0 0xA1) (le_at uc 0 0xA9))
                   (land (ge_at uc 1 0xA1) (le_at uc 1 0xFE))"

definition gbk_2 :: "byte list \<Rightarrow> bool option" where
  "gbk_2 uc = land (land (ge_at uc 0 0xB0) (le_at uc 0 0xF7))
                   (land (ge_at uc 1 0xA1) (le_at uc 1 0xFE))"

definition gbk_3 :: "byte list \<Rightarrow> bool option" where
  "gbk_3 uc = land (land (land (ge_at uc 0 0x81) (le_at uc 0 0xA0))
                         (land (ge_at uc 1 0x40) (le_at uc 1 0xFE)))
                   (ne_at uc 1 0x7F)"

definition gbk_4 :: "byte list \<Rightarrow> bool option" where
  "gbk_4 uc = land (land (land (ge_at uc 0 0xAA) (le_at uc 0 0xFE))
                         (land (ge_at uc 1 0x40) (le_at uc 1 0xA0)))
                   (ne_at uc 1 0x7F)"

definition gbk_5 :: "byte list \<Rightarrow> bool option" where
  "gbk_5 uc = land (land (land (ge_at uc 0 0xA8) (le_at uc 0 0xA9))
                         (land (ge_at uc 1 0x40) (le_at uc 1 0xA0)))
                   (ne_at uc 1 0x7F)"

definition gbk_double :: "byte list \<Rightarrow> ptrdiff_t \<Rightarrow> bool option" where
  "gbk_double uc n =
     land (Some (n > 1))
          (lor (lor (lor (lor (gbk_1 uc) (gbk_2 uc)) (gbk_3 uc)) (gbk_4 uc)) (gbk_5 uc))"

text \<open>
  \<^verbatim>\<open>(yp_gbk_codepoint_t) (uc[0] << 8 | uc[1])\<close>: both bytes are promoted to
  \<^verbatim>\<open>int\<close> (32 bits; the value stays below \<open>2 ^ 16\<close>, so the sign bit is never
  reached), shifted and joined there, and the result is cut to 16 bits.
\<close>

definition join_bytes :: "byte \<Rightarrow> byte \<Rightarrow> yp_gbk_codepoint_t" where
  "join_bytes b0 b1 = ucast (push_bit 8 (ucast b0 :: 32 word) OR (ucast b1 :: 32 word))"

text \<open>
  \<^verbatim>\<open>yp_gbk_codepoint\<close> returns the codepoint and stores the width through its third
  argument; the model returns the pair (codepoint, width). The first byte is read before
  anything is known about \<open>n\<close>.
\<close>

definition yp_gbk_codepoint ::
  "byte list \<Rightarrow> ptrdiff_t \<Rightarrow> (yp_gbk_codepoint_t \<times> size_t) option" where
  "yp_gbk_codepoint uc n =
     (case byte_at uc 0 of
        None \<Rightarrow> None
      | Some b \<Rightarrow>
          if b < 0x80 then Some (ucast b, 1)
          else (case gbk_double uc n of
                  None \<Rightarrow> None
                | Some d \<Rightarrow>
                    if d then
                      (case byte_at uc 0 of
                         None \<Rightarrow> None
                       | Some b0 \<Rightarrow>
                           (case byte_at uc 1 of
                              None \<Rightarrow> None
                            | Some b1 \<Rightarrow> Some (join_bytes b0 b1, 2)))
                    else Some (0, 0)))"

subsection \<open>The four queries of the handler\<close>

definition yp_encoding_gbk_char_width :: "byte list \<Rightarrow> ptrdiff_t \<Rightarrow> size_t option" where
  "yp_encoding_gbk_char_width uc n = map_option snd (yp_gbk_codepoint uc n)"

text \<open>
  The classification functions of the ASCII handler
  (\<^verbatim>\<open>yp_encoding_ascii_alpha_char\<close>, \<^verbatim>\<open>yp_encoding_ascii_alnum_char\<close>,
  \<^verbatim>\<open>yp_encoding_ascii_isupper_char\<close>) are defined elsewhere; they are parameters
  here, functions of the buffer and of the length they are called with. The local
  \<^verbatim>\<open>const char value\<close> is a buffer of one byte, and the length handed on is the
  caller's \<open>n\<close>.
\<close>

definition yp_encoding_gbk_alpha_char ::
  "(byte list \<Rightarrow> ptrdiff_t \<Rightarrow> size_t) \<Rightarrow> byte list \<Rightarrow> ptrdiff_t \<Rightarrow> size_t option" where
  "yp_encoding_gbk_alpha_char yp_encoding_ascii_alpha_char uc n =
     (case yp_gbk_codepoint uc n of
        None \<Rightarrow> None
      | Some (codepoint, width) \<Rightarrow>
          if width = 1 then
            (let v = (ucast codepoint :: byte)
             in Some (yp_encoding_ascii_alpha_char [v] n))
          else Some 0)"

definition yp_encoding_gbk_alnum_char ::
  "(byte list \<Rightarrow> ptrdiff_t \<Rightarrow> size_t) \<Rightarrow> byte list \<Rightarrow> ptrdiff_t \<Rightarrow> size_t option" where
  "yp_encoding_gbk_alnum_char yp_encoding_ascii_alnum_char uc n =
     (case yp_gbk_codepoint uc n of
        None \<Rightarrow> None
      | Some (codepoint, width) \<Rightarrow>
          if width = 1 then
            (let v = (ucast codepoint :: byte)
             in Some (yp_encoding_ascii_alnum_char [v] n))
          else Some 0)"

definition yp_encoding_gbk_isupper_char ::
  "(byte list \<Rightarrow> ptrdiff_t \<Rightarrow> bool) \<Rightarrow> byte list \<Rightarrow> ptrdiff_t \<Rightarrow> bool option" where
  "yp_encoding_gbk_isupper_char yp_encoding_ascii_isupper_char uc n =
     (case yp_gbk_codepoint uc n of
        None \<Rightarrow> None
      | Some (codepoint, width) \<Rightarrow>
          if width = 1 then
            (let v = (ucast codepoint :: byte)
             in Some (yp_encoding_ascii_isupper_char [v] n))
          else Some False)"

text \<open>
  Two stand-ins for the external classifiers, for statements that need a concrete one.
  They report the length they are called with, which makes that argument of the call
  visible in the result of the query.
\<close>

definition echo_length :: "byte list \<Rightarrow> ptrdiff_t \<Rightarrow> size_t" where
  "echo_length uc n = nat n"

definition length_is_one :: "byte list \<Rightarrow> ptrdiff_t \<Rightarrow> bool" where
  "length_is_one uc n \<longleftrightarrow> n = 1"

subsection \<open>The bands as sets of byte pairs\<close>

text \<open>
  The five bands by the names the source gives them in its comments. \<open>band_interval\<close>
  is the pair of closed intervals of a band, \<open>band_accepts\<close> the whole disjunct, with
  the test \<^verbatim>\<open>uc[1] != 0x7F\<close> where the source has it.
\<close>

datatype gbk_band = GBK1 | GBK2 | GBK3 | GBK4 | GBK5

fun band_interval :: "gbk_band \<Rightarrow> byte \<Rightarrow> byte \<Rightarrow> bool" where
  "band_interval GBK1 b0 b1 = ((0xA1 \<le> b0 \<and> b0 \<le> 0xA9) \<and> (0xA1 \<le> b1 \<and> b1 \<le> 0xFE))"
| "band_interval GBK2 b0 b1 = ((0xB0 \<le> b0 \<and> b0 \<le> 0xF7) \<and> (0xA1 \<le> b1 \<and> b1 \<le> 0xFE))"
| "band_interval GBK3 b0 b1 = ((0x81 \<le> b0 \<and> b0 \<le> 0xA0) \<and> (0x40 \<le> b1 \<and> b1 \<le> 0xFE))"
| "band_interval GBK4 b0 b1 = ((0xAA \<le> b0 \<and> b0 \<le> 0xFE) \<and> (0x40 \<le> b1 \<and> b1 \<le> 0xA0))"
| "band_interval GBK5 b0 b1 = ((0xA8 \<le> b0 \<and> b0 \<le> 0xA9) \<and> (0x40 \<le> b1 \<and> b1 \<le> 0xA0))"

fun band_accepts :: "gbk_band \<Rightarrow> byte \<Rightarrow> byte \<Rightarrow> bool" where
  "band_accepts GBK1 b0 b1 = band_interval GBK1 b0 b1"
| "band_accepts GBK2 b0 b1 = band_interval GBK2 b0 b1"
| "band_accepts GBK3 b0 b1 = (band_interval GBK3 b0 b1 \<and> b1 \<noteq> 0x7F)"
| "band_accepts GBK4 b0 b1 = (band_interval GBK4 b0 b1 \<and> b1 \<noteq> 0x7F)"
| "band_accepts GBK5 b0 b1 = (band_interval GBK5 b0 b1 \<and> b1 \<noteq> 0x7F)"

section \<open>Evaluating the decoder\<close>

lemma byte_at_Nil: "byte_at [] i = None"
  by (simp add: byte_at_def)

lemma byte_at_0: "byte_at (b # r) 0 = Some b"
  by (simp add: byte_at_def)

lemma byte_at_1: "byte_at (b0 # b1 # r) (Suc 0) = Some b1"
  by (simp add: byte_at_def)

lemmas cond_defs = land_def lor_def ge_at_def le_at_def ne_at_def

text \<open>On a buffer that holds two bytes each disjunct is a test on that pair.\<close>

lemma gbk_pairs:
  "gbk_1 (b0 # b1 # r) = Some (band_accepts GBK1 b0 b1)"
  "gbk_2 (b0 # b1 # r) = Some (band_accepts GBK2 b0 b1)"
  "gbk_3 (b0 # b1 # r) = Some (band_accepts GBK3 b0 b1)"
  "gbk_4 (b0 # b1 # r) = Some (band_accepts GBK4 b0 b1)"
  "gbk_5 (b0 # b1 # r) = Some (band_accepts GBK5 b0 b1)"
  by (simp_all add: gbk_1_def gbk_2_def gbk_3_def gbk_4_def gbk_5_def cond_defs
      byte_at_0 byte_at_1)

lemma ex_band: "(\<exists>k. P k) \<longleftrightarrow> P GBK1 \<or> P GBK2 \<or> P GBK3 \<or> P GBK4 \<or> P GBK5"
  by (metis gbk_band.exhaust)

lemma gbk_double_pair:
  "gbk_double (b0 # b1 # r) n = Some (1 < n \<and> (\<exists>k. band_accepts k b0 b1))"
  unfolding gbk_double_def gbk_pairs ex_band
  by (auto simp add: land_def lor_def)

lemma gbk_double_short: "\<not> 1 < n \<Longrightarrow> gbk_double uc n = Some False"
  by (simp add: gbk_double_def land_def)

lemma join_bytes_eq: "join_bytes b0 b1 = push_bit 8 (ucast b0) OR ucast b1"
  unfolding join_bytes_def
  by (rule bit_word_eqI) (auto simp: bit_simps)

lemma unat_join_bytes: "unat (join_bytes b0 b1) = 256 * unat b0 + unat b1"
proof -
  have disj: "push_bit 8 (ucast b0 :: 16 word) AND ucast b1 = 0"
    by (rule bit_word_eqI) (auto simp: bit_simps dest: bit_imp_le_length)
  have b0: "unat b0 < 256" and b1: "unat b1 < 256"
    using unsigned_less [of b0, where 'a = nat] unsigned_less [of b1, where 'a = nat]
    by simp_all
  have "join_bytes b0 b1 = push_bit 8 (ucast b0) + ucast b1"
    by (simp add: join_bytes_eq disjunctive_add_eq_or [OF disj])
  then have "unat (join_bytes b0 b1) = unat (push_bit 8 (ucast b0 :: 16 word) + ucast b1)"
    by simp
  also have "\<dots> = 256 * unat b0 + unat b1"
    using b0 b1
    by (simp add: unat_word_ariths push_bit_eq_mult unsigned_ucast_eq take_bit_eq_mod)
  finally show ?thesis .
qed

lemma decode_Nil: "yp_gbk_codepoint [] n = None"
  by (simp add: yp_gbk_codepoint_def byte_at_Nil)

lemma decode_single_byte:
  "b < 0x80 \<Longrightarrow> yp_gbk_codepoint (b # r) n = Some (ucast b, 1)"
  by (simp add: yp_gbk_codepoint_def byte_at_0)

lemma decode_truncated:
  "\<not> b < 0x80 \<Longrightarrow> \<not> 1 < n \<Longrightarrow> yp_gbk_codepoint (b # r) n = Some (0, 0)"
  by (simp add: yp_gbk_codepoint_def byte_at_0 gbk_double_short)

lemma decode_pair:
  "\<not> b0 < 0x80 \<Longrightarrow>
   yp_gbk_codepoint (b0 # b1 # r) n =
     (if 1 < n \<and> (\<exists>k. band_accepts k b0 b1) then Some (join_bytes b0 b1, 2)
      else Some (0, 0))"
  by (simp add: yp_gbk_codepoint_def byte_at_0 byte_at_1 gbk_double_pair)

lemma band_interval_lead: "band_interval k b0 b1 \<Longrightarrow> \<not> b0 < 0x80"
  by (cases k) (simp_all add: word_le_nat_alt word_less_nat_alt)

lemma band_accepts_interval:
  "band_accepts k b0 b1 \<longleftrightarrow>
     band_interval k b0 b1 \<and> (k = GBK1 \<or> k = GBK2 \<or> b1 \<noteq> 0x7F)"
  by (cases k) simp_all

lemma band_interval_disjoint:
  "band_interval k b0 b1 \<Longrightarrow> band_interval k' b0 b1 \<Longrightarrow> k = k'"
  by (cases k; cases k') (simp_all add: word_le_nat_alt)

text \<open>A well-formed window of at least one byte holds one byte or at least two.\<close>

lemma window_cases:
  assumes "1 \<le> n" "n \<le> int (length uc)"
  obtains b where "uc = [b]" "n = 1"
        | b0 b1 r where "uc = b0 # b1 # r"
  using assms by (cases uc; cases "tl uc") auto

lemma unat_ucast_byte: "unat (ucast b :: yp_gbk_codepoint_t) = unat b"
  for b :: byte
  using unsigned_less [of b, where 'a = nat]
  by (simp add: unsigned_ucast_eq take_bit_eq_mod)

lemma char_width_eq_iff:
  "yp_encoding_gbk_char_width uc n = Some w \<longleftrightarrow> (\<exists>cp. yp_gbk_codepoint uc n = Some (cp, w))"
  by (auto simp: yp_encoding_gbk_char_width_def)

lemma no_band_accepts_7F: "\<not> band_accepts k b 0x7F"
  by (cases k) simp_all

text \<open>What the decoder reads: never a byte beyond the second, and the second only when \<open>n > 1\<close>.\<close>

lemma decode_rest_irrelevant:
  "yp_gbk_codepoint (b0 # b1 # r) n = yp_gbk_codepoint (b0 # b1 # r') n"
  by (cases "b0 < 0x80") (simp_all add: decode_single_byte decode_pair)

lemma decode_short_irrelevant:
  "\<not> 1 < n \<Longrightarrow> yp_gbk_codepoint (b0 # r) n = yp_gbk_codepoint (b0 # r') n"
  by (cases "b0 < 0x80") (simp_all add: decode_single_byte decode_truncated)

lemma decode_length_irrelevant:
  "1 < n \<Longrightarrow> 1 < n' \<Longrightarrow> yp_gbk_codepoint (b0 # b1 # r) n = yp_gbk_codepoint (b0 # b1 # r) n'"
  by (cases "b0 < 0x80") (simp_all add: decode_single_byte decode_pair)

lemma decode_total:
  assumes "1 \<le> n" and "n \<le> int (length uc)"
  shows "\<exists>cp w. yp_gbk_codepoint uc n = Some (cp, w) \<and> w \<le> 2 \<and> int w \<le> n"
  using assms
proof (cases rule: window_cases)
  case (1 b)
  then show ?thesis
    by (cases "b < 0x80") (simp_all add: decode_single_byte decode_truncated)
next
  case (2 b0 b1 r)
  with assms(1) show ?thesis
    by (cases "b0 < 0x80") (auto simp add: decode_single_byte decode_pair)
qed

lemma decode_take:
  assumes "1 \<le> n" and "n \<le> int (length uc)"
  shows "yp_gbk_codepoint (take (nat n) uc) n = yp_gbk_codepoint uc n"
  using assms
proof (cases rule: window_cases)
  case (1 b)
  then show ?thesis by simp
next
  case (2 b0 b1 r)
  show ?thesis
  proof (cases "1 < n")
    case True
    define m where "m = nat n - 2"
    have m: "nat n = Suc (Suc m)"
      unfolding m_def using True by arith
    show ?thesis
      unfolding 2 m by (simp add: decode_rest_irrelevant [of b0 b1 "take m r" n r])
  next
    case False
    with assms(1) have "nat n = Suc 0" by simp
    then show ?thesis
      unfolding 2 using False by (simp add: decode_short_irrelevant [of n b0 "[]" "b1 # r"])
  qed
qed

lemma ucast_ucast_byte: "(ucast (ucast b :: yp_gbk_codepoint_t) :: byte) = b"
  by (rule bit_word_eqI) (auto simp: bit_simps)

lemma decode_width_1:
  assumes "yp_gbk_codepoint uc n = Some (cp, 1)"
  shows "byte_at uc 0 = Some (ucast cp)"
proof (cases uc)
  case Nil
  with assms show ?thesis by (simp add: decode_Nil)
next
  case (Cons b r)
  show ?thesis
  proof (cases "b < 0x80")
    case True
    with assms Cons show ?thesis
      by (auto simp: decode_single_byte byte_at_0 ucast_ucast_byte)
  next
    case False
    with assms Cons show ?thesis
      by (auto simp: yp_gbk_codepoint_def byte_at_0 split: option.splits if_splits)
  qed
qed

lemma queries_not_width_1:
  assumes "yp_gbk_codepoint uc n = Some (cp, w)" and "w \<noteq> 1"
  shows "yp_encoding_gbk_alpha_char f uc n = Some 0"
    and "yp_encoding_gbk_alnum_char g uc n = Some 0"
    and "yp_encoding_gbk_isupper_char h uc n = Some False"
  using assms
  by (simp_all add: yp_encoding_gbk_alpha_char_def yp_encoding_gbk_alnum_char_def
      yp_encoding_gbk_isupper_char_def)

lemma decode_high_lead:
  assumes "1 \<le> n" and "n \<le> int (length uc)" and "0x80 \<le> uc ! 0"
  shows "\<exists>cp w. yp_gbk_codepoint uc n = Some (cp, w) \<and> w \<noteq> 1"
  using assms(1,2)
proof (cases rule: window_cases)
  case (1 b)
  with assms(3) show ?thesis
    by (simp add: decode_truncated not_less)
next
  case (2 b0 b1 r)
  with assms(3) show ?thesis
    by (simp add: decode_pair not_less)
qed

section \<open>Properties of the decoder\<close>

text \<open>
  C1. A window with remaining length \<open>n > 1\<close> whose first two bytes lie in one of the
  five bands (the trail 0x7F left out where the source leaves it out) decodes to width 2
  and to the codepoint \<open>b0 << 8 | b1\<close>, whose value is \<open>256 * b0 + b1\<close>.
\<close>

theorem gbk_double_byte_decoded:
  assumes "1 < n"
    and "(0xA1 \<le> b0 \<and> b0 \<le> 0xA9 \<and> 0xA1 \<le> b1 \<and> b1 \<le> 0xFE)
       \<or> (0xB0 \<le> b0 \<and> b0 \<le> 0xF7 \<and> 0xA1 \<le> b1 \<and> b1 \<le> 0xFE)
       \<or> (0x81 \<le> b0 \<and> b0 \<le> 0xA0 \<and> 0x40 \<le> b1 \<and> b1 \<le> 0xFE \<and> b1 \<noteq> 0x7F)
       \<or> (0xAA \<le> b0 \<and> b0 \<le> 0xFE \<and> 0x40 \<le> b1 \<and> b1 \<le> 0xA0 \<and> b1 \<noteq> 0x7F)
       \<or> (0xA8 \<le> b0 \<and> b0 \<le> 0xA9 \<and> 0x40 \<le> b1 \<and> b1 \<le> 0xA0 \<and> b1 \<noteq> 0x7F)"
  shows "yp_gbk_codepoint (b0 # b1 # rest) n = Some (push_bit 8 (ucast b0) OR ucast b1, 2)
       \<and> unat (push_bit 8 (ucast b0) OR ucast b1 :: yp_gbk_codepoint_t)
           = 256 * unat b0 + unat b1
       \<and> yp_encoding_gbk_char_width (b0 # b1 # rest) n = Some 2"
proof -
  from assms(2) have acc: "\<exists>k. band_accepts k b0 b1"
    unfolding ex_band by auto
  then obtain k where "band_interval k b0 b1"
    by (auto simp: band_accepts_interval)
  then have lead: "\<not> b0 < 0x80"
    by (rule band_interval_lead)
  have dec: "yp_gbk_codepoint (b0 # b1 # rest) n = Some (join_bytes b0 b1, 2)"
    using lead acc assms(1) by (simp add: decode_pair)
  show ?thesis
    using dec unat_join_bytes [of b0 b1]
    by (simp add: yp_encoding_gbk_char_width_def join_bytes_eq)
qed

theorem gbk_double_byte_decoded_witness:
  "(1 :: int) < 2 \<and> (0xA1 :: byte) \<le> 0xA1 \<and> (0xA1 :: byte) \<le> 0xA9
   \<and> (0xA1 :: byte) \<le> 0xFE
   \<and> yp_gbk_codepoint [0xA1, 0xA1] 2 = Some (0xA1A1, 2)
   \<and> yp_encoding_gbk_char_width [0xA1, 0xA1] 2 = Some 2"
  using gbk_double_byte_decoded [of 2 "0xA1" "0xA1" "[]"]
  by simp

text \<open>
  C2. A window with remaining length \<open>n \<ge> 1\<close> whose first byte is below 0x80 decodes
  to width 1 and to that byte as the codepoint, whatever follows it.
\<close>

theorem gbk_single_byte_decoded:
  assumes "1 \<le> n" and "b < 0x80"
  shows "yp_gbk_codepoint (b # rest) n = Some (ucast b, 1)
       \<and> unat (ucast b :: yp_gbk_codepoint_t) = unat b
       \<and> yp_encoding_gbk_char_width (b # rest) n = Some 1"
  using assms(2)
  by (simp add: decode_single_byte yp_encoding_gbk_char_width_def unat_ucast_byte)

theorem gbk_single_byte_decoded_witness:
  "(1 :: int) \<le> 3 \<and> (0x41 :: byte) < 0x80
   \<and> yp_gbk_codepoint [0x41, 0xA1, 0xA1] 3 = Some (0x41, 1)
   \<and> yp_encoding_gbk_char_width [0x41, 0xA1, 0xA1] 3 = Some 1"
  using gbk_single_byte_decoded [of 3 "0x41" "[0xA1, 0xA1]"]
  by simp

text \<open>
  C3. On a well-formed window of at least one byte the decoder always returns a result,
  and that result is width 0 with codepoint 0 exactly when the first byte is at or above
  0x80 and the first two bytes are not an accepted pair with \<open>n > 1\<close>. This covers the
  truncated window (\<open>n = 1\<close>) and the pair 0x81 0x7F.
\<close>

theorem gbk_width_zero_iff:
  assumes "1 \<le> n" and "n \<le> int (length uc)"
  shows "yp_gbk_codepoint uc n \<noteq> None
       \<and> (yp_gbk_codepoint uc n = Some (0, 0)
            \<longleftrightarrow> 0x80 \<le> uc ! 0 \<and> \<not> (1 < n \<and> (\<exists>k. band_accepts k (uc ! 0) (uc ! 1))))
       \<and> (yp_encoding_gbk_char_width uc n = Some 0
            \<longleftrightarrow> 0x80 \<le> uc ! 0 \<and> \<not> (1 < n \<and> (\<exists>k. band_accepts k (uc ! 0) (uc ! 1))))
       \<and> (n = 1 \<and> 0x80 \<le> uc ! 0 \<longrightarrow> yp_encoding_gbk_char_width uc n = Some 0)
       \<and> (uc ! 0 = 0x81 \<and> uc ! 1 = 0x7F \<longrightarrow> yp_encoding_gbk_char_width uc n = Some 0)"
  using assms
proof (cases rule: window_cases)
  case (1 b)
  show ?thesis
  proof (cases "b < 0x80")
    case True
    with 1 show ?thesis
      by (auto simp add: decode_single_byte char_width_eq_iff not_le)
  next
    case False
    with 1 show ?thesis
      by (simp add: decode_truncated char_width_eq_iff not_less)
  qed
next
  case (2 b0 b1 r)
  show ?thesis
  proof (cases "b0 < 0x80")
    case True
    with 2 show ?thesis
      by (auto simp add: decode_single_byte char_width_eq_iff not_le)
  next
    case False
    with 2 show ?thesis
      using no_band_accepts_7F [of _ "0x81"]
      by (auto simp add: decode_pair char_width_eq_iff not_less)
  qed
qed

theorem gbk_width_zero_iff_witness:
  "(1 :: int) \<le> 2 \<and> (2 :: int) \<le> int (length [0x81 :: byte, 0x7F])
   \<and> yp_gbk_codepoint [0x81, 0x7F] 2 = Some (0, 0)
   \<and> yp_encoding_gbk_char_width [0x81, 0x7F] 2 = Some 0"
  using gbk_width_zero_iff [of 2 "[0x81, 0x7F]"]
  by (simp add: no_band_accepts_7F)

text \<open>
  C4, as stated: exactly one band leaves a trail value out and the other four accept
  every trail byte of their interval. The source leaves 0x7F out in three bands: in each
  of GBK/3, GBK/4 and GBK/5 a pair inside the intervals is rejected.
\<close>

theorem three_bands_reject_7F:
  "band_interval GBK3 0x81 0x7F \<and> yp_encoding_gbk_char_width [0x81, 0x7F] 2 = Some 0
   \<and> band_interval GBK4 0xAA 0x7F \<and> yp_encoding_gbk_char_width [0xAA, 0x7F] 2 = Some 0
   \<and> band_interval GBK5 0xA8 0x7F \<and> yp_encoding_gbk_char_width [0xA8, 0x7F] 2 = Some 0"
  by (simp add: yp_encoding_gbk_char_width_def decode_pair no_band_accepts_7F)

text \<open>
  C4, amended. For \<open>n > 1\<close>: GBK/1 and GBK/2 accept every pair of their intervals;
  GBK/3, GBK/4 and GBK/5 accept every pair of their intervals but those with trail 0x7F,
  which decode to width 0; and each of these three intervals does contain the trail 0x7F.
\<close>

theorem gbk_trail_hole:
  assumes "1 < n"
  shows "(band_interval GBK1 b0 b1 \<or> band_interval GBK2 b0 b1
            \<longrightarrow> yp_encoding_gbk_char_width (b0 # b1 # rest) n = Some 2)
       \<and> (band_interval GBK3 b0 b1 \<or> band_interval GBK4 b0 b1 \<or> band_interval GBK5 b0 b1
            \<longrightarrow> (b1 \<noteq> 0x7F \<longrightarrow> yp_encoding_gbk_char_width (b0 # b1 # rest) n = Some 2)
              \<and> (b1 = 0x7F \<longrightarrow> yp_encoding_gbk_char_width (b0 # b1 # rest) n = Some 0))
       \<and> band_interval GBK3 0x81 0x7F \<and> band_interval GBK4 0xAA 0x7F
       \<and> band_interval GBK5 0xA8 0x7F"
proof -
  have w: "yp_encoding_gbk_char_width (b0 # b1 # rest) n
        = Some (if \<exists>k. band_accepts k b0 b1 then 2 else 0)" if "band_interval k b0 b1" for k
    using assms band_interval_lead [OF that]
    by (simp add: yp_encoding_gbk_char_width_def decode_pair)
  have acc: "\<exists>k. band_accepts k b0 b1" if "band_interval k b0 b1" "b1 \<noteq> 0x7F" for k
    using that by (auto simp: band_accepts_interval)
  have two: "yp_encoding_gbk_char_width (b0 # b1 # rest) n = Some 2"
    if "band_interval k b0 b1" "b1 \<noteq> 0x7F" for k
    using w [OF that(1)] acc [OF that] by simp
  have zero: "yp_encoding_gbk_char_width (b0 # b1 # rest) n = Some 0"
    if "band_interval k b0 b1" "b1 = 0x7F" for k
    using w [OF that(1)] that(2) by (simp add: no_band_accepts_7F)
  have trail12: "b1 \<noteq> 0x7F" if "band_interval GBK1 b0 b1 \<or> band_interval GBK2 b0 b1"
    using that by (auto simp: word_le_nat_alt)
  have c1: "band_interval GBK1 b0 b1 \<or> band_interval GBK2 b0 b1
            \<longrightarrow> yp_encoding_gbk_char_width (b0 # b1 # rest) n = Some 2"
    using two trail12 by blast
  have c2: "band_interval GBK3 b0 b1 \<or> band_interval GBK4 b0 b1 \<or> band_interval GBK5 b0 b1
            \<longrightarrow> (b1 \<noteq> 0x7F \<longrightarrow> yp_encoding_gbk_char_width (b0 # b1 # rest) n = Some 2)
              \<and> (b1 = 0x7F \<longrightarrow> yp_encoding_gbk_char_width (b0 # b1 # rest) n = Some 0)"
    using two zero by blast
  have c3: "band_interval GBK3 0x81 0x7F \<and> band_interval GBK4 0xAA 0x7F
       \<and> band_interval GBK5 0xA8 0x7F"
    by simp
  from c1 c2 c3 show ?thesis by blast
qed

theorem gbk_trail_hole_witness:
  "(1 :: int) < 2
   \<and> band_interval GBK1 0xA1 0xFE \<and> yp_encoding_gbk_char_width [0xA1, 0xFE] 2 = Some 2
   \<and> band_interval GBK4 0xAA 0x80 \<and> yp_encoding_gbk_char_width [0xAA, 0x80] 2 = Some 2
   \<and> band_interval GBK5 0xA8 0x7F \<and> yp_encoding_gbk_char_width [0xA8, 0x7F] 2 = Some 0"
  using gbk_trail_hole [of 2 "0xA1" "0xFE" "[]"] gbk_trail_hole [of 2 "0xAA" "0x80" "[]"]
    gbk_trail_hole [of 2 "0xA8" "0x7F" "[]"]
  by simp

section \<open>Properties of the handler\<close>

text \<open>
  C5, as stated: the operations read no byte at or beyond the remaining length for every
  \<open>n \<ge> 0\<close>, and at \<open>n = 0\<close> no byte is accessed. The decoder reads \<^verbatim>\<open>*uc\<close>
  before it looks at \<open>n\<close>: on the empty window every operation faults, and with
  \<open>n = 0\<close> the result is the byte found at index 0.
\<close>

theorem empty_window_is_read:
  "yp_gbk_codepoint [] 0 = None
   \<and> yp_encoding_gbk_char_width [] 0 = None
   \<and> yp_encoding_gbk_alpha_char echo_length [] 0 = None
   \<and> yp_encoding_gbk_alnum_char echo_length [] 0 = None
   \<and> yp_encoding_gbk_isupper_char length_is_one [] 0 = None
   \<and> yp_gbk_codepoint [0x41] 0 = Some (0x41, 1)
   \<and> yp_gbk_codepoint [0x42] 0 = Some (0x42, 1)"
  by (simp add: decode_Nil decode_single_byte yp_encoding_gbk_char_width_def
      yp_encoding_gbk_alpha_char_def yp_encoding_gbk_alnum_char_def
      yp_encoding_gbk_isupper_char_def)

text \<open>
  C5, amended. On a well-formed window with \<open>n \<ge> 1\<close> the decoder and the four
  queries return a result, and it is the result they return on the first \<open>n\<close> bytes
  alone, where any read at or beyond index \<open>n\<close> would be a fault; with \<open>n = 1\<close>
  this is a buffer of one byte, so the second byte is read only when \<open>n > 1\<close>.
\<close>

theorem gbk_reads_within_window:
  assumes "1 \<le> n" and "n \<le> int (length uc)"
  shows "yp_gbk_codepoint (take (nat n) uc) n = yp_gbk_codepoint uc n
       \<and> yp_gbk_codepoint uc n \<noteq> None
       \<and> yp_encoding_gbk_char_width (take (nat n) uc) n = yp_encoding_gbk_char_width uc n
       \<and> yp_encoding_gbk_char_width uc n \<noteq> None
       \<and> yp_encoding_gbk_alpha_char f (take (nat n) uc) n = yp_encoding_gbk_alpha_char f uc n
       \<and> yp_encoding_gbk_alpha_char f uc n \<noteq> None
       \<and> yp_encoding_gbk_alnum_char g (take (nat n) uc) n = yp_encoding_gbk_alnum_char g uc n
       \<and> yp_encoding_gbk_alnum_char g uc n \<noteq> None
       \<and> yp_encoding_gbk_isupper_char h (take (nat n) uc) n
           = yp_encoding_gbk_isupper_char h uc n
       \<and> yp_encoding_gbk_isupper_char h uc n \<noteq> None"
proof -
  have eq: "yp_gbk_codepoint (take (nat n) uc) n = yp_gbk_codepoint uc n"
    using assms by (rule decode_take)
  obtain cp w where some: "yp_gbk_codepoint uc n = Some (cp, w)"
    using decode_total [OF assms] by blast
  show ?thesis
    unfolding yp_encoding_gbk_char_width_def yp_encoding_gbk_alpha_char_def
      yp_encoding_gbk_alnum_char_def yp_encoding_gbk_isupper_char_def eq
    by (auto simp add: some)
qed

theorem gbk_reads_within_window_witness:
  "(1 :: int) \<le> 1 \<and> (1 :: int) \<le> int (length [0xA1 :: byte, 0xA1])
   \<and> yp_gbk_codepoint (take (nat 1) [0xA1, 0xA1]) 1 = Some (0, 0)
   \<and> yp_gbk_codepoint [0xA1, 0xA1] 1 = Some (0, 0)
   \<and> yp_encoding_gbk_alpha_char echo_length [0xA1, 0xA1] 1 = Some 0"
  using gbk_reads_within_window [of 1 "[0xA1, 0xA1]" echo_length echo_length length_is_one]
  by (simp add: decode_truncated yp_encoding_gbk_alpha_char_def)

text \<open>
  C6, as stated: on width 1 the delegate is called with the decoded byte and a remaining
  length of one. The source hands on the caller's \<open>n\<close>: on the window 0x41 0x42 with
  \<open>n = 2\<close> the decoder yields width 1, and a delegate that reports its length
  argument reports 2, where it reports 1 when called with length one.
\<close>

theorem delegate_gets_length_n:
  "yp_gbk_codepoint [0x41, 0x42] 2 = Some (0x41, 1)
   \<and> yp_encoding_gbk_alpha_char echo_length [0x41, 0x42] 2 = Some 2
   \<and> yp_encoding_gbk_alnum_char echo_length [0x41, 0x42] 2 = Some 2
   \<and> echo_length [0x41] 1 = 1
   \<and> yp_encoding_gbk_isupper_char length_is_one [0x41, 0x42] 2 = Some False
   \<and> length_is_one [0x41] 1 = True"
  by (simp add: decode_single_byte yp_encoding_gbk_alpha_char_def
      yp_encoding_gbk_alnum_char_def yp_encoding_gbk_isupper_char_def
      echo_length_def length_is_one_def)

text \<open>
  C6, amended. Whenever the decoder yields width 1, the decoded byte is the first byte
  of the window and each of the three classification queries returns the result of its
  delegate on a buffer of that single byte and the caller's remaining length \<open>n\<close>;
  for \<open>n = 1\<close> this is a remaining length of one.
\<close>

theorem gbk_single_byte_delegates:
  assumes "yp_gbk_codepoint uc n = Some (cp, 1)"
  shows "byte_at uc 0 = Some (ucast cp)
       \<and> yp_encoding_gbk_alpha_char f uc n = Some (f [ucast cp] n)
       \<and> yp_encoding_gbk_alnum_char g uc n = Some (g [ucast cp] n)
       \<and> yp_encoding_gbk_isupper_char h uc n = Some (h [ucast cp] n)
       \<and> (n = 1 \<longrightarrow> yp_encoding_gbk_alpha_char f uc n = Some (f [ucast cp] 1)
                  \<and> yp_encoding_gbk_alnum_char g uc n = Some (g [ucast cp] 1)
                  \<and> yp_encoding_gbk_isupper_char h uc n = Some (h [ucast cp] 1))"
proof -
  have a: "yp_encoding_gbk_alpha_char f uc n = Some (f [ucast cp] n)"
    and b: "yp_encoding_gbk_alnum_char g uc n = Some (g [ucast cp] n)"
    and c: "yp_encoding_gbk_isupper_char h uc n = Some (h [ucast cp] n)"
    using assms
    by (simp_all add: yp_encoding_gbk_alpha_char_def yp_encoding_gbk_alnum_char_def
        yp_encoding_gbk_isupper_char_def)
  from a b c decode_width_1 [OF assms] show ?thesis
    by auto
qed

theorem gbk_single_byte_delegates_witness:
  "yp_gbk_codepoint [0x41, 0x42] 2 = Some (0x41, 1)
   \<and> yp_encoding_gbk_alpha_char echo_length [0x41, 0x42] 2 = Some (echo_length [0x41] 2)
   \<and> yp_encoding_gbk_alnum_char echo_length [0x41, 0x42] 2 = Some (echo_length [0x41] 2)
   \<and> yp_encoding_gbk_isupper_char length_is_one [0x41, 0x42] 2
       = Some (length_is_one [0x41] 2)"
  using gbk_single_byte_delegates [of "[0x41, 0x42]" 2 "0x41" echo_length echo_length
      length_is_one]
  by (simp add: decode_single_byte)

text \<open>
  C7. Whenever the decoder yields a width other than 1, \<open>alpha_char\<close> and
  \<open>alnum_char\<close> return 0 and \<open>isupper_char\<close> returns false, whatever the delegates
  are. So \<open>isupper_char\<close> is false on every well-formed window whose first byte is at
  or above 0x80, and every accepted pair of the five bands has width 2 and is neither
  alphabetic nor alphanumeric.
\<close>

theorem gbk_multibyte_not_classified:
  "(yp_gbk_codepoint uc n = Some (cp, w) \<and> w \<noteq> 1
      \<longrightarrow> yp_encoding_gbk_alpha_char f uc n = Some 0
        \<and> yp_encoding_gbk_alnum_char g uc n = Some 0
        \<and> yp_encoding_gbk_isupper_char h uc n = Some False)
   \<and> (1 \<le> n \<and> n \<le> int (length uc) \<and> 0x80 \<le> uc ! 0
      \<longrightarrow> yp_encoding_gbk_isupper_char h uc n = Some False)
   \<and> (1 < m \<and> band_accepts k b0 b1
      \<longrightarrow> yp_encoding_gbk_char_width (b0 # b1 # rest) m = Some 2
        \<and> yp_encoding_gbk_alpha_char f (b0 # b1 # rest) m = Some 0
        \<and> yp_encoding_gbk_alnum_char g (b0 # b1 # rest) m = Some 0)"
proof (intro conjI impI)
  assume a: "yp_gbk_codepoint uc n = Some (cp, w) \<and> w \<noteq> 1"
  then show "yp_encoding_gbk_alpha_char f uc n = Some 0"
    and "yp_encoding_gbk_alnum_char g uc n = Some 0"
    and "yp_encoding_gbk_isupper_char h uc n = Some False"
    by (simp_all add: queries_not_width_1)
next
  assume "1 \<le> n \<and> n \<le> int (length uc) \<and> 0x80 \<le> uc ! 0"
  then obtain cp' w' where "yp_gbk_codepoint uc n = Some (cp', w')" "w' \<noteq> 1"
    using decode_high_lead by blast
  then show "yp_encoding_gbk_isupper_char h uc n = Some False"
    by (rule queries_not_width_1)
next
  assume a: "1 < m \<and> band_accepts k b0 b1"
  then have "band_interval k b0 b1"
    by (simp add: band_accepts_interval)
  then have "\<not> b0 < 0x80"
    by (rule band_interval_lead)
  with a have dec: "yp_gbk_codepoint (b0 # b1 # rest) m = Some (join_bytes b0 b1, 2)"
    by (auto simp: decode_pair)
  then show "yp_encoding_gbk_char_width (b0 # b1 # rest) m = Some 2"
    by (simp add: yp_encoding_gbk_char_width_def)
  from dec show "yp_encoding_gbk_alpha_char f (b0 # b1 # rest) m = Some 0"
    by (rule queries_not_width_1) simp
  from dec show "yp_encoding_gbk_alnum_char g (b0 # b1 # rest) m = Some 0"
    by (rule queries_not_width_1) simp
qed

theorem gbk_multibyte_not_classified_witness:
  "yp_gbk_codepoint [0xB0, 0xA1] 2 = Some (0xB0A1, 2) \<and> (2 :: nat) \<noteq> 1
   \<and> (1 :: int) \<le> 2 \<and> (2 :: int) \<le> int (length [0xB0 :: byte, 0xA1])
   \<and> (0x80 :: byte) \<le> [0xB0, 0xA1] ! 0
   \<and> (1 :: int) < 2 \<and> band_accepts GBK2 0xB0 0xA1
   \<and> yp_encoding_gbk_alpha_char echo_length [0xB0, 0xA1] 2 = Some 0
   \<and> yp_encoding_gbk_alnum_char echo_length [0xB0, 0xA1] 2 = Some 0
   \<and> yp_encoding_gbk_isupper_char length_is_one [0xB0, 0xA1] 2 = Some False"
  using gbk_multibyte_not_classified [of "[0xB0, 0xA1]" 2 "0xB0A1" 2 echo_length echo_length
      length_is_one 2 GBK2 "0xB0" "0xA1" "[]"]
  by (simp add: decode_pair ex_band join_bytes_def)

text \<open>
  C8. No pair of bytes lies in the lead and trail intervals of two different bands, so a
  pair that decodes to width 2 lies in the intervals of exactly one band and is accepted
  by exactly one band.
\<close>

theorem gbk_bands_disjoint:
  "(k \<noteq> k' \<longrightarrow> \<not> (band_interval k b0 b1 \<and> band_interval k' b0 b1))
   \<and> (yp_encoding_gbk_char_width (b0 # b1 # rest) n = Some 2
      \<longrightarrow> (\<exists>!k. band_interval k b0 b1) \<and> (\<exists>!k. band_accepts k b0 b1))"
proof (intro conjI impI)
  assume "k \<noteq> k'"
  then show "\<not> (band_interval k b0 b1 \<and> band_interval k' b0 b1)"
    using band_interval_disjoint [of k b0 b1 k'] by blast
next
  assume w: "yp_encoding_gbk_char_width (b0 # b1 # rest) n = Some 2"
  have "\<exists>k. band_accepts k b0 b1"
  proof (cases "b0 < 0x80")
    case True
    with w show ?thesis
      by (simp add: yp_encoding_gbk_char_width_def decode_single_byte)
  next
    case False
    with w show ?thesis
      by (auto simp add: yp_encoding_gbk_char_width_def decode_pair split: if_splits)
  qed
  then obtain j where j: "band_accepts j b0 b1" ..
  then have ji: "band_interval j b0 b1"
    by (simp add: band_accepts_interval)
  show "\<exists>!k. band_interval k b0 b1"
    using ji band_interval_disjoint [of _ b0 b1 j] by blast
  show "\<exists>!k. band_accepts k b0 b1"
  proof (rule ex1I [of _ j])
    show "band_accepts j b0 b1" by (rule j)
  next
    fix k assume "band_accepts k b0 b1"
    then have "band_interval k b0 b1"
      by (simp add: band_accepts_interval)
    then show "k = j"
      using ji by (rule band_interval_disjoint)
  qed
qed

theorem gbk_bands_disjoint_witness:
  "GBK1 \<noteq> GBK5 \<and> band_interval GBK1 0xA8 0xA1 \<and> \<not> band_interval GBK5 0xA8 0xA1
   \<and> yp_encoding_gbk_char_width [0xA8, 0xA1] 2 = Some 2
   \<and> (\<exists>!k. band_interval k 0xA8 0xA1) \<and> (\<exists>!k. band_accepts k 0xA8 0xA1)"
  using gbk_bands_disjoint [of GBK1 GBK5 "0xA8" "0xA1" "[]" 2]
  by (simp add: yp_encoding_gbk_char_width_def decode_pair ex_band)

text \<open>
  C9. On a well-formed window with \<open>n \<ge> 1\<close> the width returned by
  \<open>char_width\<close> is at most \<open>n\<close>: it is 0, 1 or 2, and 2 only when \<open>n > 1\<close>.
\<close>

theorem gbk_width_within_window:
  assumes "1 \<le> n" and "n \<le> int (length uc)"
  shows "\<exists>w. yp_encoding_gbk_char_width uc n = Some w \<and> int w \<le> n \<and> w \<le> 2
            \<and> (w = 2 \<longrightarrow> 1 < n) \<and> (w = 1 \<longrightarrow> 1 \<le> n)"
proof -
  obtain cp w where "yp_gbk_codepoint uc n = Some (cp, w)" "w \<le> 2" "int w \<le> n"
    using decode_total [OF assms] by blast
  then show ?thesis
    using assms(1) by (auto simp: yp_encoding_gbk_char_width_def)
qed

theorem gbk_width_within_window_witness:
  "(1 :: int) \<le> 2 \<and> (2 :: int) \<le> int (length [0xA1 :: byte, 0xA1])
   \<and> (\<exists>w. yp_encoding_gbk_char_width [0xA1, 0xA1] 2 = Some w \<and> int w \<le> 2 \<and> w \<le> 2
            \<and> (w = 2 \<longrightarrow> (1 :: int) < 2) \<and> (w = 1 \<longrightarrow> (1 :: int) \<le> 2))"
  using gbk_width_within_window [of 2 "[0xA1, 0xA1]"]
  by simp

text \<open>
  C10. The results of the decoder and of \<open>char_width\<close> are the same on any two
  windows with remaining lengths of at least 2 that agree on their first two bytes, and
  on any two windows with remaining length 1 that agree on their first byte: the bytes
  from offset 2 on, and the value of \<open>n\<close> beyond \<open>n > 1\<close>, have no influence.
\<close>

theorem gbk_result_depends_on_two_bytes:
  "(2 \<le> n \<and> 2 \<le> n'
      \<longrightarrow> yp_gbk_codepoint (b0 # b1 # r) n = yp_gbk_codepoint (b0 # b1 # r') n'
        \<and> yp_encoding_gbk_char_width (b0 # b1 # r) n
            = yp_encoding_gbk_char_width (b0 # b1 # r') n')
   \<and> yp_gbk_codepoint (b0 # r) 1 = yp_gbk_codepoint (b0 # r') 1
   \<and> yp_encoding_gbk_char_width (b0 # r) 1 = yp_encoding_gbk_char_width (b0 # r') 1"
proof -
  have one: "yp_gbk_codepoint (b0 # r) 1 = yp_gbk_codepoint (b0 # r') 1"
    by (rule decode_short_irrelevant) simp
  have two: "yp_gbk_codepoint (b0 # b1 # r) n = yp_gbk_codepoint (b0 # b1 # r') n'"
    if "2 \<le> n \<and> 2 \<le> n'"
    using that decode_rest_irrelevant [of b0 b1 r n r']
      decode_length_irrelevant [of n n' b0 b1 r']
    by simp
  from one two show ?thesis
    by (simp add: yp_encoding_gbk_char_width_def)
qed

theorem gbk_result_depends_on_two_bytes_witness:
  "(2 :: int) \<le> 2 \<and> (2 :: int) \<le> 5
   \<and> yp_gbk_codepoint [0xA1, 0xA1] 2 = yp_gbk_codepoint [0xA1, 0xA1, 0x41, 0x7F, 0xFF] 5
   \<and> yp_encoding_gbk_char_width [0xA1, 0xA1] 2
       = yp_encoding_gbk_char_width [0xA1, 0xA1, 0x41, 0x7F, 0xFF] 5
   \<and> yp_gbk_codepoint [0xA1, 0xA1, 0x41, 0x7F, 0xFF] 5 = Some (0xA1A1, 2)"
  using gbk_result_depends_on_two_bytes [of 2 5 "0xA1" "0xA1" "[]" "[0x41, 0x7F, 0xFF]"]
  by (simp add: decode_pair ex_band join_bytes_def)

end
